theory Spec2Isabelle
  imports Complex_Main
begin

section \<open>Python values and exceptions used by the two bridges\<close>

text \<open>
  The bridges of \<^verbatim>\<open>src/mcp_streaming_client.py\<close> (stdio to HTTP) and
  \<^verbatim>\<open>src/python_tools/remote_claude_mcp_configs.py\<close> (stdio to TCP) are embedded
  as functions over an explicit world: the process's streams, the remote peer and the
  connection resource. A Python \<^verbatim>\<open>str\<close> is a \<open>string\<close> whose characters stand for
  the code points below 256; a \<^verbatim>\<open>bytes\<close> object is a list of such characters too.
\<close>

text \<open>
  What \<^verbatim>\<open>json.loads\<close> and \<^verbatim>\<open>response.json()\<close> return: the Python image of a
  JSON text. \<open>JNull\<close> is Python's \<^verbatim>\<open>None\<close>; finite floats are reals.
\<close>

datatype json =
    JNull
  | JBool bool
  | JInt int
  | JFloat real
  | JStr string
  | JList "json list"
  | JDict "(string \<times> json) list"

text \<open>Python's truth value testing, as the statement \<^verbatim>\<open>if response:\<close> applies it.\<close>

fun truthy :: "json \<Rightarrow> bool" where
  "truthy JNull = False"
| "truthy (JBool b) = b"
| "truthy (JInt i) = (i \<noteq> 0)"
| "truthy (JFloat x) = (x \<noteq> 0)"
| "truthy (JStr s) = (s \<noteq> [])"
| "truthy (JList xs) = (xs \<noteq> [])"
| "truthy (JDict kvs) = (kvs \<noteq> [])"

text \<open>
  The exceptions the two scripts can meet. \<open>KeyboardInterrupt\<close> derives from
  \<^verbatim>\<open>BaseException\<close> only; every other one is an \<^verbatim>\<open>Exception\<close>.
\<close>

datatype exn =
    KeyboardInterrupt
  | JSONDecodeError string
  | RecursionError string
  | HTTPError nat
  | ConnectionError string
  | Timeout string
  | OSError string
  | OtherException string

fun is_Exception :: "exn \<Rightarrow> bool" where
  "is_Exception KeyboardInterrupt = False"
| "is_Exception _ = True"

text \<open>
  How a process ends: the script's last statement returns, an exception reaches the top
  level, \<^verbatim>\<open>sys.exit(n)\<close> is called, or the interpreter aborts while it shuts down.
  The exit status is 0 in the first case, 130 for an uncaught \<^verbatim>\<open>KeyboardInterrupt\<close>,
  1 for any other uncaught exception, and 134 (\<^verbatim>\<open>SIGABRT\<close>) for an abort.
\<close>

datatype ending = Returned | Uncaught exn | SysExit nat | Aborted

fun exit_status :: "ending \<Rightarrow> nat" where
  "exit_status Returned = 0"
| "exit_status (Uncaught KeyboardInterrupt) = 130"
| "exit_status (Uncaught e) = 1"
| "exit_status (SysExit n) = n"
| "exit_status Aborted = 134"

text \<open>A line printed to \<^verbatim>\<open>sys.stderr\<close>: the fixed prefix and the exception formatted after it.\<close>

type_synonym diagnostic = "string \<times> exn option"

text \<open>What reaches a buffered output stream: data written, and flushes.\<close>

datatype out_event = Write string | Flush

fun written :: "out_event list \<Rightarrow> string list" where
  "written [] = []"
| "written (Write s # es) = s # written es"
| "written (Flush # es) = written es"

section \<open>Mode A: \<^verbatim>\<open>MCPStreamingClient\<close>\<close>

subsection \<open>String helpers of the standard library\<close>

text \<open>\<^verbatim>\<open>str.isspace\<close> on the code points below 256.\<close>

definition is_space :: "char \<Rightarrow> bool" where
  "is_space c = (let n = of_char c :: nat in
     (9 \<le> n \<and> n \<le> 13) \<or> (28 \<le> n \<and> n \<le> 32) \<or> n = 133 \<or> n = 160)"

text \<open>\<^verbatim>\<open>line.strip()\<close>\<close>

definition strip :: "string \<Rightarrow> string" where
  "strip s = rev (dropWhile is_space (rev (dropWhile is_space s)))"

text \<open>\<^verbatim>\<open>base_url.rstrip('/')\<close>\<close>

definition rstrip_slash :: "string \<Rightarrow> string" where
  "rstrip_slash s = rev (dropWhile (\<lambda>c. c = CHR ''/'') (rev s))"

subsection \<open>The client, the request and the world\<close>

record client =
  base_url :: string

text \<open>\<^verbatim>\<open>MCPStreamingClient.__init__\<close>; the session it creates lives in the world.\<close>

definition init :: "string \<Rightarrow> client" where
  "init url = \<lparr>base_url = rstrip_slash url\<rparr>"

text \<open>The arguments of one \<^verbatim>\<open>session.post\<close> call.\<close>

record http_request =
  url :: string
  json_body :: json
  headers :: "(string \<times> string) list"
  timeout :: nat

text \<open>
  The response object: its status code and what \<^verbatim>\<open>response.json()\<close> does, which is
  to return a value or to raise.
\<close>

record http_response =
  status_code :: nat
  json_result :: "exn + json"

text \<open>\<^verbatim>\<open>Response.raise_for_status\<close> of the requests library: 4xx and 5xx raise.\<close>

definition raise_for_status :: "http_response \<Rightarrow> exn option" where
  "raise_for_status r =
     (if 400 \<le> status_code r \<and> status_code r < 600 then Some (HTTPError (status_code r))
      else None)"

text \<open>
  The world of the HTTP bridge. The remote endpoint is a state \<open>remote\<close> of any type;
  a \<open>post\<close> function, given with the other library functions, answers a request from
  it (or raises) and moves it on.
\<close>

record 'r world =
  stdout :: "out_event list"
  stderr :: "diagnostic list"
  posted :: "http_request list"
  remote :: 'r
  session_closed :: nat

type_synonym 'r poster = "'r \<Rightarrow> http_request \<Rightarrow> (exn + http_response) \<times> 'r"

subsection \<open>\<^verbatim>\<open>forward_request\<close>\<close>

text \<open>
  The \<^verbatim>\<open>try\<close> block posts, checks the status and decodes the body; \<^verbatim>\<open>except Exception\<close>
  prints \<^verbatim>\<open>Request error\<close> and returns \<^verbatim>\<open>None\<close>. An exception that is no
  \<^verbatim>\<open>Exception\<close> leaves the function (\<open>Inl\<close>).
\<close>

definition request_failed :: "exn \<Rightarrow> 'r world \<Rightarrow> (exn + json) \<times> 'r world" where
  "request_failed e w =
     (if is_Exception e
      then (Inr JNull, w\<lparr>stderr := stderr w @ [(''Request error: '', Some e)]\<rparr>)
      else (Inl e, w))"

definition post_args :: "client \<Rightarrow> json \<Rightarrow> http_request" where
  "post_args self json_rpc =
     \<lparr>url = base_url self @ ''/mcp'', json_body = json_rpc,
      headers = [(''Content-Type'', ''application/json'')], timeout = 300\<rparr>"

definition forward_request ::
  "'r poster \<Rightarrow> client \<Rightarrow> json \<Rightarrow> 'r world \<Rightarrow> (exn + json) \<times> 'r world" where
  "forward_request post self json_rpc w =
     (let req = post_args self json_rpc;
          (res, r') = post (remote w) req;
          w1 = w\<lparr>posted := posted w @ [req], remote := r'\<rparr>
      in case res of
           Inl e \<Rightarrow> request_failed e w1
         | Inr response \<Rightarrow>
             (case raise_for_status response of
                Some e \<Rightarrow> request_failed e w1
              | None \<Rightarrow>
                  (case json_result response of
                     Inl e \<Rightarrow> request_failed e w1
                   | Inr v \<Rightarrow> (Inr v, w1))))"

subsection \<open>\<^verbatim>\<open>run\<close>\<close>

text \<open>\<^verbatim>\<open>print(json.dumps(response), flush=True)\<close>\<close>

definition print_flush :: "string \<Rightarrow> 'r world \<Rightarrow> 'r world" where
  "print_flush s w = w\<lparr>stdout := stdout w @ [Write (s @ [CHR 0x0A]), Flush]\<rparr>"

text \<open>
  The handlers of the inner \<^verbatim>\<open>try\<close>: \<^verbatim>\<open>except json.JSONDecodeError\<close> prints the
  diagnostic and the loop goes on; anything else leaves the loop.
\<close>

definition inner_except :: "exn \<Rightarrow> 'r world \<Rightarrow> exn option \<times> 'r world" where
  "inner_except e w =
     (case e of
        JSONDecodeError m \<Rightarrow> (None, w\<lparr>stderr := stderr w @ [(''JSON decode error: '', Some e)]\<rparr>)
      | _ \<Rightarrow> (Some e, w))"

text \<open>
  One iteration of \<^verbatim>\<open>for line in sys.stdin\<close>. \<open>loads\<close> is \<^verbatim>\<open>json.loads\<close>,
  \<open>dumps\<close> is \<^verbatim>\<open>json.dumps\<close>. The result is the exception that leaves the loop, if any.
\<close>

definition loop_body ::
  "(string \<Rightarrow> exn + json) \<Rightarrow> (json \<Rightarrow> string) \<Rightarrow> 'r poster \<Rightarrow> client \<Rightarrow> string \<Rightarrow> 'r world
     \<Rightarrow> exn option \<times> 'r world" where
  "loop_body loads dumps post self line0 w =
     (let line = strip line0 in
      if line = [] then (None, w)
      else
        (case loads line of
           Inl e \<Rightarrow> inner_except e w
         | Inr request \<Rightarrow>
             (case forward_request post self request w of
                (Inl e, w') \<Rightarrow> inner_except e w'
              | (Inr response, w') \<Rightarrow>
                  (if truthy response then (None, print_flush (dumps response) w')
                   else (None, w')))))"

text \<open>
  The \<^verbatim>\<open>for\<close> loop. Standard input is the list of what each read gives: a line, or an
  exception raised by the read (an interrupt while blocked, an undecodable byte); the
  end of the list is end-of-stream.
\<close>

fun for_lines ::
  "(string \<Rightarrow> exn + json) \<Rightarrow> (json \<Rightarrow> string) \<Rightarrow> 'r poster \<Rightarrow> client \<Rightarrow> (exn + string) list
     \<Rightarrow> 'r world \<Rightarrow> exn option \<times> 'r world" where
  "for_lines loads dumps post self [] w = (None, w)"
| "for_lines loads dumps post self (Inl e # rest) w = (Some e, w)"
| "for_lines loads dumps post self (Inr line # rest) w =
     (case loop_body loads dumps post self line w of
        (Some e, w') \<Rightarrow> (Some e, w')
      | (None, w') \<Rightarrow> for_lines loads dumps post self rest w')"

text \<open>
  \<^verbatim>\<open>run\<close>: the loop, \<^verbatim>\<open>except KeyboardInterrupt: pass\<close>, and
  \<^verbatim>\<open>finally: self.session.close()\<close>.
\<close>

definition run ::
  "(string \<Rightarrow> exn + json) \<Rightarrow> (json \<Rightarrow> string) \<Rightarrow> 'r poster \<Rightarrow> client \<Rightarrow> (exn + string) list
     \<Rightarrow> 'r world \<Rightarrow> exn option \<times> 'r world" where
  "run loads dumps post self stdin w =
     (let (raised, w1) = for_lines loads dumps post self stdin w;
          pending = (case raised of Some KeyboardInterrupt \<Rightarrow> None | other \<Rightarrow> other)
      in (pending, w1\<lparr>session_closed := session_closed w1 + 1\<rparr>))"

text \<open>\<^verbatim>\<open>main\<close>: build the client from the URL argument and run it on a fresh world.\<close>

definition fresh :: "'r \<Rightarrow> 'r world" where
  "fresh r = \<lparr>stdout = [], stderr = [], posted = [], remote = r, session_closed = 0\<rparr>"

definition main ::
  "(string \<Rightarrow> exn + json) \<Rightarrow> (json \<Rightarrow> string) \<Rightarrow> 'r poster \<Rightarrow> string \<Rightarrow> (exn + string) list
     \<Rightarrow> 'r \<Rightarrow> ending \<times> 'r world" where
  "main loads dumps post url_arg stdin r =
     (let (pending, w) = run loads dumps post (init url_arg) stdin (fresh r)
      in (case pending of None \<Rightarrow> Returned | Some e \<Rightarrow> Uncaught e, w))"

section \<open>Mode B: \<^verbatim>\<open>MCPNetworkBridge\<close>\<close>

subsection \<open>The bridge object and the world\<close>

text \<open>\<open>socket\<close> is \<^verbatim>\<open>self.socket\<close>: \<open>None\<close> until \<^verbatim>\<open>connect\<close> creates the socket.\<close>

record bridge =
  host :: string
  port :: int
  socket :: "unit option"

text \<open>\<^verbatim>\<open>MCPNetworkBridge.__init__\<close>\<close>

definition init_bridge :: "string \<Rightarrow> int \<Rightarrow> bridge" where
  "init_bridge h p = \<lparr>host = h, port = p, socket = None\<rparr>"

text \<open>
  What the peer does on the receive side of the socket: data arriving in one piece, or a
  failing read. The end of the list is the peer closing the connection.
\<close>

datatype recv_event = Data string | RecvRaises exn

text \<open>
  The world of the TCP bridge: what \<^verbatim>\<open>connect\<close> will do (\<open>None\<close>: it succeeds), the
  lines handed to \<^verbatim>\<open>sendall\<close> calls that returned, what the coming \<^verbatim>\<open>sendall\<close>
  calls do (\<open>None\<close>: the call returns; past the end of the list they all do), the receive
  side, the number of \<^verbatim>\<open>close\<close> calls on the socket, and the output streams.
\<close>

record net =
  connect_outcome :: "exn option"
  sock_sent :: "string list"
  send_outcomes :: "exn option list"
  sock_incoming :: "recv_event list"
  sock_closed :: nat
  sout :: "out_event list"
  serr :: "diagnostic list"

subsection \<open>Socket calls\<close>

text \<open>\<^verbatim>\<open>self.socket.sendall(line)\<close>: the whole line is sent, or the call raises.\<close>

definition sendall :: "string \<Rightarrow> net \<Rightarrow> exn option \<times> net" where
  "sendall line w =
     (case send_outcomes w of
        [] \<Rightarrow> (None, w\<lparr>sock_sent := sock_sent w @ [line]\<rparr>)
      | None # os \<Rightarrow> (None, w\<lparr>sock_sent := sock_sent w @ [line], send_outcomes := os\<rparr>)
      | Some e # os \<Rightarrow> (Some e, w\<lparr>send_outcomes := os\<rparr>))"

text \<open>
  \<^verbatim>\<open>self.socket.recv(bufsize)\<close>: at most \<open>bufsize\<close> bytes of what has arrived, the rest
  staying in the socket; no bytes once the peer has closed.
\<close>

definition recv :: "nat \<Rightarrow> net \<Rightarrow> (exn + string) \<times> net" where
  "recv bufsize w =
     (case sock_incoming w of
        [] \<Rightarrow> (Inr [], w)
      | RecvRaises e # q \<Rightarrow> (Inl e, w\<lparr>sock_incoming := q\<rparr>)
      | Data bs # q \<Rightarrow>
          (Inr (take bufsize bs),
           w\<lparr>sock_incoming := (if drop bufsize bs = [] then q else Data (drop bufsize bs) # q)\<rparr>))"

subsection \<open>\<^verbatim>\<open>connect\<close>\<close>

definition connect :: "bridge \<Rightarrow> net \<Rightarrow> (exn + bool) \<times> bridge \<times> net" where
  "connect self w =
     (let self1 = self\<lparr>socket := Some ()\<rparr> in
      case connect_outcome w of
        None \<Rightarrow> (Inr True, self1, w)
      | Some e \<Rightarrow>
          (if is_Exception e
           then (Inr False, self1, w\<lparr>serr := serr w @ [(''Connection failed: '', Some e)]\<rparr>)
           else (Inl e, self1, w)))"

subsection \<open>\<^verbatim>\<open>forward_stdio_to_socket\<close>\<close>

text \<open>
  The \<^verbatim>\<open>while True\<close> loop. Standard input is the list of what each
  \<^verbatim>\<open>readline\<close> gives: a line, or an exception; at the end of the list it gives
  \<^verbatim>\<open>b""\<close>. The result is the exception that leaves the loop, if any.
\<close>

fun stdio_loop :: "bridge \<Rightarrow> (exn + string) list \<Rightarrow> net \<Rightarrow> exn option \<times> net" where
  "stdio_loop self [] w = (None, w)"
| "stdio_loop self (Inl e # rest) w = (Some e, w)"
| "stdio_loop self (Inr line # rest) w =
     (if line = [] then (None, w)
      else
        (case socket self of
           Some _ \<Rightarrow>
             (case sendall line w of
                (Some e, w') \<Rightarrow> (Some e, w')
              | (None, w') \<Rightarrow> stdio_loop self rest w')
         | None \<Rightarrow> (None, w\<lparr>serr := serr w @ [(''Socket is not connected.'', None)]\<rparr>)))"

definition forward_stdio_to_socket ::
  "bridge \<Rightarrow> (exn + string) list \<Rightarrow> net \<Rightarrow> exn option \<times> net" where
  "forward_stdio_to_socket self stdin w =
     (case stdio_loop self stdin w of
        (Some e, w') \<Rightarrow>
          (if is_Exception e
           then (None, w'\<lparr>serr := serr w' @ [(''Error forwarding to socket: '', Some e)]\<rparr>)
           else (Some e, w'))
      | (None, w') \<Rightarrow> (None, w'))"

subsection \<open>\<^verbatim>\<open>forward_socket_to_stdio\<close>\<close>

text \<open>The size of what is still to come from the socket; every read of data lowers it.\<close>

fun pending_size :: "recv_event list \<Rightarrow> nat" where
  "pending_size [] = 0"
| "pending_size (Data bs # q) = Suc (length bs) + pending_size q"
| "pending_size (RecvRaises e # q) = Suc (pending_size q)"

text \<open>\<^verbatim>\<open>sys.stdout.buffer.write(data); sys.stdout.buffer.flush()\<close>\<close>

definition write_flush :: "string \<Rightarrow> net \<Rightarrow> net" where
  "write_flush data w = w\<lparr>sout := sout w @ [Write data, Flush]\<rparr>"

lemma recv_data_decreases:
  "recv 4096 w = (Inr data, w') \<Longrightarrow> data \<noteq> [] \<Longrightarrow>
   pending_size (sock_incoming w') < pending_size (sock_incoming w)"
  by (auto simp: recv_def split: list.splits recv_event.splits if_splits)

function socket_loop :: "bridge \<Rightarrow> net \<Rightarrow> exn option \<times> net" where
  "socket_loop self w =
     (if socket self = None
      then (None, w\<lparr>serr := serr w @ [(''Socket is not connected.'', None)]\<rparr>)
      else
        (case recv 4096 w of
           (Inl e, w') \<Rightarrow> (Some e, w')
         | (Inr data, w') \<Rightarrow>
             (if data = [] then (None, w')
              else socket_loop self (write_flush data w'))))"
  by pat_completeness auto
termination
  by (relation "measure (\<lambda>(self, w). pending_size (sock_incoming w))")
     (auto simp: write_flush_def dest: recv_data_decreases [OF sym])

definition forward_socket_to_stdio :: "bridge \<Rightarrow> net \<Rightarrow> exn option \<times> net" where
  "forward_socket_to_stdio self w =
     (case socket_loop self w of
        (Some e, w') \<Rightarrow>
          (if is_Exception e
           then (None, w'\<lparr>serr := serr w' @ [(''Error forwarding to stdio: '', Some e)]\<rparr>)
           else (Some e, w'))
      | (None, w') \<Rightarrow> (None, w'))"

subsection \<open>\<^verbatim>\<open>run\<close> and \<^verbatim>\<open>main\<close>\<close>

text \<open>
  The daemon thread runs \<^verbatim>\<open>forward_stdio_to_socket\<close> beside the main thread. \<open>sched\<close>
  is the number of reads of standard input that return before the process ends: a read
  that has not returned by then leaves the thread blocked in \<^verbatim>\<open>readline\<close>.
  \<open>stdio_ended\<close> follows the loop of \<^verbatim>\<open>forward_stdio_to_socket\<close> through these reads
  and tells whether the loop has come to its end: by an empty read, a failing read, a
  failing write or a missing socket.
\<close>

datatype thread_state = NotStarted | Blocked | Ended

fun stdio_ended :: "bridge \<Rightarrow> (exn + string) list \<Rightarrow> nat \<Rightarrow> net \<Rightarrow> bool" where
  "stdio_ended self stdin 0 w = False"
| "stdio_ended self [] (Suc n) w = True"
| "stdio_ended self (Inl e # rest) (Suc n) w = True"
| "stdio_ended self (Inr line # rest) (Suc n) w =
     (if line = [] then True
      else
        (case socket self of
           Some _ \<Rightarrow>
             (case sendall line w of
                (Some e, w') \<Rightarrow> True
              | (None, w') \<Rightarrow> stdio_ended self rest n w')
         | None \<Rightarrow> True))"

text \<open>
  \<^verbatim>\<open>run\<close>: a failed \<^verbatim>\<open>connect\<close> ends in \<^verbatim>\<open>sys.exit(1)\<close>, ahead of the
  \<^verbatim>\<open>try\<close>. Otherwise the daemon thread is started on \<^verbatim>\<open>forward_stdio_to_socket\<close>
  and the main thread runs \<^verbatim>\<open>forward_socket_to_stdio\<close>; \<^verbatim>\<open>KeyboardInterrupt\<close> is
  passed over and \<^verbatim>\<open>finally\<close> closes the socket if \<^verbatim>\<open>self.socket\<close> is set.
  The result holds how \<^verbatim>\<open>run\<close> ends and the state of the daemon thread at that time.

  The thread and the main loop work on separate parts of the world: standard input and
  the send side of the socket for the one, the receive side and standard output for the
  other; they share the error stream. The model lets the thread do its \<open>sched\<close> reads
  first: only the order of the lines on the error stream depends on that choice. An
  exception that leaves the thread ends the thread alone.
\<close>

definition run_bridge ::
  "bridge \<Rightarrow> (exn + string) list \<Rightarrow> nat \<Rightarrow> net \<Rightarrow> ending \<times> thread_state \<times> bridge \<times> net" where
  "run_bridge self stdin sched w =
     (case connect self w of
        (Inl e, self1, w1) \<Rightarrow> (Uncaught e, NotStarted, self1, w1)
      | (Inr False, self1, w1) \<Rightarrow> (SysExit 1, NotStarted, self1, w1)
      | (Inr True, self1, w1) \<Rightarrow>
          (let (thread_raised, w2) = forward_stdio_to_socket self1 (take sched stdin) w1;
               thread = (if stdio_ended self1 stdin sched w1 then Ended else Blocked);
               (raised, w3) = forward_socket_to_stdio self1 w2;
               pending = (case raised of Some KeyboardInterrupt \<Rightarrow> None | other \<Rightarrow> other);
               w4 = (if socket self1 \<noteq> None then w3\<lparr>sock_closed := sock_closed w3 + 1\<rparr> else w3)
           in (case pending of None \<Rightarrow> Returned | Some e \<Rightarrow> Uncaught e, thread, self1, w4)))"

definition fresh_net :: "exn option \<Rightarrow> exn option list \<Rightarrow> recv_event list \<Rightarrow> net" where
  "fresh_net c os q =
     \<lparr>connect_outcome = c, sock_sent = [], send_outcomes = os, sock_incoming = q,
      sock_closed = 0, sout = [], serr = []\<rparr>"

text \<open>
  The end of the process. When the script is over the interpreter shuts down, and for
  that it takes the lock of the buffered reader of standard input. A daemon thread that
  is still blocked in \<^verbatim>\<open>sys.stdin.buffer.readline()\<close> holds this lock: the interpreter
  gives up with a fatal error and aborts, whatever the script had ended with.
\<close>

definition interpreter_exit :: "ending \<Rightarrow> thread_state \<Rightarrow> ending" where
  "interpreter_exit e t = (if t = Blocked then Aborted else e)"

text \<open>\<^verbatim>\<open>main\<close>: build the bridge from the arguments, run it, and leave the interpreter.\<close>

definition main_bridge ::
  "string \<Rightarrow> int \<Rightarrow> (exn + string) list \<Rightarrow> nat \<Rightarrow> net \<Rightarrow> ending \<times> bridge \<times> net" where
  "main_bridge h p stdin sched w =
     (case run_bridge (init_bridge h p) stdin sched w of
        (e, t, self1, w') \<Rightarrow> (interpreter_exit e t, self1, w'))"

section \<open>What the specification says of a line\<close>

text \<open>
  The specification sorts the input lines of the HTTP bridge into blank lines, lines
  that fail to parse, lines whose request fails (the post raises, the status is an
  error status, the body is no JSON) and lines that are answered. \<open>classify\<close> follows
  these words for one line, given the state of the remote endpoint, and returns the
  endpoint's next state; \<open>outcomes\<close> does so for the lines of a run, in order.
\<close>

datatype line_class = Blank | Malformed | Failed | Answered json

definition classify ::
  "(string \<Rightarrow> exn + json) \<Rightarrow> 'r poster \<Rightarrow> client \<Rightarrow> string \<Rightarrow> 'r \<Rightarrow> line_class \<times> 'r" where
  "classify loads post self line r =
     (if strip line = [] then (Blank, r)
      else
        (case loads (strip line) of
           Inl e \<Rightarrow> (Malformed, r)
         | Inr request \<Rightarrow>
             (case post r (post_args self request) of
                (Inl e, r') \<Rightarrow> (Failed, r')
              | (Inr response, r') \<Rightarrow>
                  (if 400 \<le> status_code response \<and> status_code response < 600
                   then (Failed, r')
                   else (case json_result response of
                           Inl e \<Rightarrow> (Failed, r')
                         | Inr v \<Rightarrow> (Answered v, r'))))))"

fun outcomes ::
  "(string \<Rightarrow> exn + json) \<Rightarrow> 'r poster \<Rightarrow> client \<Rightarrow> string list \<Rightarrow> 'r \<Rightarrow> line_class list" where
  "outcomes loads post self [] r = []"
| "outcomes loads post self (line # rest) r =
     (case classify loads post self line r of
        (c, r') \<Rightarrow> c # outcomes loads post self rest r')"

text \<open>The answers among the outcomes, in order.\<close>

fun answers :: "line_class list \<Rightarrow> json list" where
  "answers [] = []"
| "answers (Answered v # cs) = v # answers cs"
| "answers (c # cs) = answers cs"

text \<open>The output line of an answer: its serialization and the newline of \<^verbatim>\<open>print\<close>.\<close>

definition output_line :: "(json \<Rightarrow> string) \<Rightarrow> json \<Rightarrow> string" where
  "output_line dumps v = dumps v @ [CHR 0x0A]"

text \<open>What the loop writes to standard output for a line of a given class.\<close>

definition emitted :: "(json \<Rightarrow> string) \<Rightarrow> line_class \<Rightarrow> out_event list" where
  "emitted dumps c =
     (case c of
        Answered v \<Rightarrow> (if truthy v then [Write (output_line dumps v), Flush] else [])
      | _ \<Rightarrow> [])"

section \<open>A stub endpoint and stub codecs\<close>

text \<open>
  Concrete library functions for running the bridge on examples: a decoder and an encoder
  that know a few JSON texts, and an endpoint that answers the requests it gets from a
  list of canned replies and refuses the connection once the list is used up.
\<close>

definition stub_loads :: "string \<Rightarrow> exn + json" where
  "stub_loads s =
     (if s = ''{}'' then Inr (JDict [])
      else if s = ''[1]'' then Inr (JList [JInt 1])
      else if s = ''[2]'' then Inr (JList [JInt 2])
      else Inl (JSONDecodeError ''Expecting value''))"

definition stub_dumps :: "json \<Rightarrow> string" where
  "stub_dumps v =
     (if v = JDict [] then ''{}''
      else if v = JList [JInt 1] then ''[1]''
      else if v = JList [JInt 2] then ''[2]''
      else ''null'')"

text \<open>
  A line of a thousand opening brackets, and a decoder that does on it what
  \<^verbatim>\<open>json.loads\<close> does: the nesting exceeds the recursion limit of the interpreter.
\<close>

definition deep_line :: string where
  "deep_line = replicate 1000 (CHR ''['') @ ''\<newline>''"

definition nesting_loads :: "string \<Rightarrow> exn + json" where
  "nesting_loads s =
     (if s = replicate 1000 (CHR ''['')
      then Inl (RecursionError ''maximum recursion depth exceeded'')
      else stub_loads s)"

definition canned_post :: "(exn + http_response) list poster" where
  "canned_post replies req =
     (case replies of
        [] \<Rightarrow> (Inl (ConnectionError ''Connection refused''), [])
      | x # xs \<Rightarrow> (x, xs))"

text \<open>An endpoint that cannot be reached: every post raises \<open>e\<close>.\<close>

definition failing_post :: "exn \<Rightarrow> (exn + http_response) list poster" where
  "failing_post e replies req = (Inl e, tl replies)"

definition ok_reply :: "json \<Rightarrow> exn + http_response" where
  "ok_reply v = Inr \<lparr>status_code = 200, json_result = Inr v\<rparr>"

definition gateway :: string where
  "gateway = ''http://192.168.1.231:8080''"

section \<open>What the specification says of the byte pipe\<close>

text \<open>
  The lines that standard input gives before its end (an empty read) or a failing read.
\<close>

fun lines_read :: "(exn + string) list \<Rightarrow> string list" where
  "lines_read [] = []"
| "lines_read (Inl e # rest) = []"
| "lines_read (Inr line # rest) = (if line = [] then [] else line # lines_read rest)"

text \<open>
  The lines the socket takes, given what the coming \<^verbatim>\<open>sendall\<close> calls do: all of them
  up to the first call that raises.
\<close>

fun accepted :: "exn option list \<Rightarrow> string list \<Rightarrow> string list" where
  "accepted os [] = []"
| "accepted [] (l # ls) = l # ls"
| "accepted (None # os) (l # ls) = l # accepted os ls"
| "accepted (Some e # os) (l # ls) = []"

text \<open>
  The bytes the socket delivers before it returns zero bytes (the peer has closed) or a
  read fails.
\<close>

fun stream_bytes :: "recv_event list \<Rightarrow> string" where
  "stream_bytes [] = []"
| "stream_bytes (RecvRaises e # q) = []"
| "stream_bytes (Data bs # q) = (if bs = [] then [] else bs @ stream_bytes q)"

text \<open>Chunks written to standard output one by one, with a flush after each.\<close>

fun write_events :: "string list \<Rightarrow> out_event list" where
  "write_events [] = []"
| "write_events (c # cs) = Write c # Flush # write_events cs"

text \<open>A bridge whose \<^verbatim>\<open>connect\<close> has created the socket.\<close>

definition connected_bridge :: bridge where
  "connected_bridge = (init_bridge ''192.168.1.231'' 8080)\<lparr>socket := Some ()\<rparr>"

section \<open>Properties of the HTTP bridge\<close>

subsection \<open>Library facts\<close>

lemma rstrip_slash_append_slashes:
  "rstrip_slash (u @ replicate n (CHR ''/'')) = rstrip_slash u"
proof -
  have "dropWhile (\<lambda>c. c = CHR ''/'') (replicate n (CHR ''/'') @ rev u)
        = dropWhile (\<lambda>c. c = CHR ''/'') (rev u)"
    by (induction n) simp_all
  then show ?thesis by (simp add: rstrip_slash_def)
qed

lemma rstrip_slash_decompose:
  "\<exists>k. u = rstrip_slash u @ replicate k (CHR ''/'')"
proof -
  let ?P = "\<lambda>c. c = CHR ''/''"
  have "rev u = takeWhile ?P (rev u) @ dropWhile ?P (rev u)" by simp
  moreover have "takeWhile ?P (rev u) = replicate (length (takeWhile ?P (rev u))) (CHR ''/'')"
    by (rule replicate_eqI) (auto dest: set_takeWhileD)
  ultimately have "rev u = replicate (length (takeWhile ?P (rev u))) (CHR ''/'') @ dropWhile ?P (rev u)"
    by simp
  then have "u = rev (dropWhile ?P (rev u)) @ replicate (length (takeWhile ?P (rev u))) (CHR ''/'')"
    by (metis rev_append rev_replicate rev_rev_ident)
  then show ?thesis unfolding rstrip_slash_def by blast
qed

lemma rstrip_slash_no_trailing_slash:
  "rstrip_slash u = [] \<or> last (rstrip_slash u) \<noteq> CHR ''/''"
proof (cases "dropWhile (\<lambda>c. c = CHR ''/'') (rev u)")
  case Nil
  then show ?thesis by (simp add: rstrip_slash_def)
next
  case (Cons c cs)
  then have "c \<noteq> CHR ''/''"
    using hd_dropWhile [of "\<lambda>c. c = CHR ''/''" "rev u"] by auto
  with Cons show ?thesis by (simp add: rstrip_slash_def)
qed

lemma written_append: "written (xs @ ys) = written xs @ written ys"
  by (induction xs rule: written.induct) simp_all

lemma posted_forward_request:
  "posted (snd (forward_request post self j w)) = posted w @ [post_args self j]"
  by (simp add: forward_request_def request_failed_def Let_def
           split: prod.splits sum.splits option.splits)

lemmas run_defs = loop_body_def forward_request_def request_failed_def
  raise_for_status_def print_flush_def inner_except_def classify_def

lemmas stub_defs = strip_def is_space_def post_args_def init_def rstrip_slash_def fresh_def
  stub_loads_def stub_dumps_def canned_post_def ok_reply_def gateway_def output_line_def

subsection \<open>One line, and the loop over the lines\<close>

lemma loop_body_classified:
  assumes "loop_body loads dumps post self line w = (None, w')"
      and "classify loads post self line (remote w) = (c, r')"
  shows "remote w' = r' \<and> stdout w' = stdout w @ emitted dumps c"
  using assms
  by (auto simp: run_defs emitted_def output_line_def Let_def
           split: if_splits sum.splits prod.splits option.splits exn.splits)

lemma loop_body_answered:
  assumes "classify loads post self line (remote w) = (Answered v, r')"
  shows "\<exists>w'. loop_body loads dumps post self line w = (None, w')"
  using assms
  by (auto simp: run_defs Let_def
           split: if_splits sum.splits prod.splits option.splits exn.splits)

lemma for_lines_stdout:
  "for_lines loads dumps post self (map Inr lines) w = (None, w') \<Longrightarrow>
   stdout w' = stdout w @ concat (map (emitted dumps) (outcomes loads post self lines (remote w)))"
proof (induction lines arbitrary: w)
  case Nil
  then show ?case by simp
next
  case (Cons line rest)
  obtain c r' where c: "classify loads post self line (remote w) = (c, r')"
    by (cases "classify loads post self line (remote w)")
  obtain e w1 where b: "loop_body loads dumps post self line w = (e, w1)"
    by (cases "loop_body loads dumps post self line w")
  with Cons.prems have e: "e = None" and rest: "for_lines loads dumps post self (map Inr rest) w1 = (None, w')"
    by (auto split: option.splits)
  from b e c have "remote w1 = r' \<and> stdout w1 = stdout w @ emitted dumps c"
    by (simp add: loop_body_classified)
  with Cons.IH [OF rest] c show ?case by simp
qed

lemma written_emitted:
  "written (concat (map (emitted dumps) cs)) = map (output_line dumps) (filter truthy (answers cs))"
  by (induction cs rule: answers.induct) (simp_all add: emitted_def)

lemma length_outcomes: "length (outcomes loads post self lines r) = length lines"
  by (induction lines arbitrary: r) (auto split: prod.splits)

lemma count_classes:
  "length cs = count_list cs Blank + count_list cs Failed + count_list cs Malformed
               + length (answers cs)"
  by (induction cs rule: answers.induct) simp_all

lemma for_lines_continue:
  "loop_body loads dumps post self line w = (None, w') \<Longrightarrow>
   for_lines loads dumps post self (Inr line # rest) w = for_lines loads dumps post self rest w'"
  by simp

lemma for_lines_all_answered:
  "\<forall>c \<in> set (outcomes loads post self lines (remote w)). \<exists>v. c = Answered v \<Longrightarrow>
   \<exists>w'. for_lines loads dumps post self (map Inr lines) w = (None, w')"
proof (induction lines arbitrary: w)
  case Nil
  then show ?case by simp
next
  case (Cons line rest)
  obtain c r' where c: "classify loads post self line (remote w) = (c, r')"
    by (cases "classify loads post self line (remote w)")
  with Cons.prems obtain v where v: "c = Answered v" by auto
  with c have "classify loads post self line (remote w) = (Answered v, r')" by simp
  from loop_body_answered [OF this, of dumps]
  obtain w1 where b: "loop_body loads dumps post self line w = (None, w1)" ..
  with c have r: "remote w1 = r'" by (simp add: loop_body_classified)
  from Cons.prems c have "\<forall>c \<in> set (outcomes loads post self rest r'). \<exists>v. c = Answered v"
    by simp
  with r obtain w' where "for_lines loads dumps post self (map Inr rest) w1 = (None, w')"
    using Cons.IH [of w1] by auto
  with b show ?case by simp
qed

lemma loop_body_truthy_answer:
  assumes "classify loads post self line (remote w) = (Answered v, r')" and "truthy v"
  shows "\<exists>w'. loop_body loads dumps post self line w = (None, w')
          \<and> stdout w' = stdout w @ [Write (output_line dumps v), Flush]
          \<and> stderr w' = stderr w"
  using assms
  by (auto simp: run_defs output_line_def Let_def
           split: if_splits sum.splits prod.splits option.splits exn.splits)

subsection \<open>Partial failure isolation (C1)\<close>

text \<open>
  C1 as it is written. In the words of the specification a malformed line is a non-blank
  line that fails to parse, and a failed request is one that ends in a request exception;
  the number of output lines would be the number of input lines less the failed requests
  and the malformed lines. A blank line is neither, and gives no output: on the
  three lines \<^verbatim>\<open>[1]\<close>, a blank line and \<^verbatim>\<open>[2]\<close>, both answered, the bridge
  writes two lines, not three.
\<close>

theorem output_count_counterexample:
  "fst (for_lines stub_loads stub_dumps canned_post (init gateway)
          [Inr ''[1]\<newline>'', Inr ''\<newline>'', Inr ''[2]\<newline>'']
          (fresh [ok_reply (JList [JInt 2]), ok_reply (JList [JInt 1])])) = None
   \<and> length (written (stdout (snd (for_lines stub_loads stub_dumps canned_post (init gateway)
          [Inr ''[1]\<newline>'', Inr ''\<newline>'', Inr ''[2]\<newline>'']
          (fresh [ok_reply (JList [JInt 2]), ok_reply (JList [JInt 1])])))))
     \<noteq> length [''[1]\<newline>'', ''\<newline>'', ''[2]\<newline>'']
       - count_list (outcomes stub_loads canned_post (init gateway)
            [''[1]\<newline>'', ''\<newline>'', ''[2]\<newline>'']
            [ok_reply (JList [JInt 2]), ok_reply (JList [JInt 1])]) Failed
       - count_list (outcomes stub_loads canned_post (init gateway)
            [''[1]\<newline>'', ''\<newline>'', ''[2]\<newline>'']
            [ok_reply (JList [JInt 2]), ok_reply (JList [JInt 1])]) Malformed"
  by (simp add: run_defs stub_defs Let_def)

text \<open>
  C1, amended. When the loop reaches the end of the input, the output lines are the
  serializations of the answers that \<^verbatim>\<open>if response:\<close> lets through, one line for
  each and in the order of their input lines: a failed request or a malformed line
  before or after an answered line takes nothing from it. When every answer is let
  through, the number of output lines is the number of input lines less the blank lines,
  the failed requests and the malformed lines. In any case the input lines are the output
  lines, the blank lines, the failed requests, the malformed lines and the answers that
  are not let through, taken together.
\<close>

theorem output_count_amended:
  assumes "for_lines loads dumps post self (map Inr lines) (fresh r) = (None, w')"
      and "outcomes loads post self lines r = cs"
  shows "written (stdout w') = map (output_line dumps) (filter truthy (answers cs))
       \<and> ((\<forall>v \<in> set (answers cs). truthy v) \<longrightarrow>
            length (written (stdout w'))
              = length lines - count_list cs Blank - count_list cs Failed - count_list cs Malformed)
       \<and> count_list cs Blank + count_list cs Failed + count_list cs Malformed \<le> length lines
       \<and> length (written (stdout w')) + length (filter (\<lambda>v. \<not> truthy v) (answers cs))
            + count_list cs Blank + count_list cs Failed + count_list cs Malformed
          = length lines"
proof -
  have "stdout w' = concat (map (emitted dumps) cs)"
    using for_lines_stdout [OF assms(1)] assms(2) by (simp add: fresh_def)
  then have w: "written (stdout w') = map (output_line dumps) (filter truthy (answers cs))"
    by (simp add: written_emitted)
  have f: "(\<forall>v \<in> set (answers cs). truthy v) \<longrightarrow> filter truthy (answers cs) = answers cs"
    by (simp add: filter_id_conv)
  have n: "length lines = length cs"
    using assms(2) length_outcomes [of loads post self lines r] by simp
  have p: "length (filter truthy (answers cs)) + length (filter (\<lambda>v. \<not> truthy v) (answers cs))
             = length (answers cs)"
    by (rule sum_length_filter_compl)
  from w f n p count_classes [of cs] show ?thesis by auto
qed

theorem output_count_amended_witness:
  "written (stdout (snd (for_lines stub_loads stub_dumps canned_post (init gateway)
       (map Inr [''[1]\<newline>'', ''\<newline>'', ''oops\<newline>'', ''[2]\<newline>'', ''{}\<newline>''])
       (fresh [ok_reply (JList [JInt 2]), Inr \<lparr>status_code = 500, json_result = Inr JNull\<rparr>,
               ok_reply (JList [JInt 1])]))))
   = [''[2]\<newline>'', ''[1]\<newline>'']
   \<and> outcomes stub_loads canned_post (init gateway)
       [''[1]\<newline>'', ''\<newline>'', ''oops\<newline>'', ''[2]\<newline>'', ''{}\<newline>'']
       [ok_reply (JList [JInt 2]), Inr \<lparr>status_code = 500, json_result = Inr JNull\<rparr>,
        ok_reply (JList [JInt 1])]
     = [Answered (JList [JInt 2]), Blank, Malformed, Failed, Answered (JList [JInt 1])]
   \<and> length (written (stdout (snd (for_lines stub_loads stub_dumps canned_post (init gateway)
       (map Inr [''[1]\<newline>'', ''\<newline>'', ''oops\<newline>'', ''[2]\<newline>'', ''{}\<newline>''])
       (fresh [ok_reply (JList [JInt 2]), Inr \<lparr>status_code = 500, json_result = Inr JNull\<rparr>,
               ok_reply (JList [JInt 1])])))))
     = 5 - 1 - 1 - 1"
proof -
  let ?lines = "[''[1]\<newline>'', ''\<newline>'', ''oops\<newline>'', ''[2]\<newline>'', ''{}\<newline>'']"
  let ?r = "[ok_reply (JList [JInt 2]), Inr \<lparr>status_code = 500, json_result = Inr JNull\<rparr>,
             ok_reply (JList [JInt 1])]"
  let ?cs = "[Answered (JList [JInt 2]), Blank, Malformed, Failed, Answered (JList [JInt 1])]"
  let ?run = "for_lines stub_loads stub_dumps canned_post (init gateway) (map Inr ?lines) (fresh ?r)"
  have h1: "?run = (None, snd ?run)"
    by (simp add: run_defs stub_defs Let_def)
  have h2: "outcomes stub_loads canned_post (init gateway) ?lines ?r = ?cs"
    by (simp add: run_defs stub_defs Let_def)
  have h3: "\<forall>v \<in> set (answers ?cs). truthy v" by simp
  from output_count_amended [OF h1 h2] h2 h3 show ?thesis
    by (simp add: stub_defs)
qed

subsection \<open>Forwarding of a successful response (C2)\<close>

text \<open>
  C2 says that every answered line has its answer written to standard output. The loop
  tests the answer with \<^verbatim>\<open>if response:\<close>, so an answer that Python takes for false
  (\<^verbatim>\<open>{}\<close>, \<^verbatim>\<open>[]\<close>, \<^verbatim>\<open>0\<close>, \<^verbatim>\<open>false\<close>, \<^verbatim>\<open>""\<close>, \<^verbatim>\<open>null\<close>) is
  dropped without a word on either stream. Here the endpoint answers the request
  \<^verbatim>\<open>{}\<close> with status 200 and the body \<^verbatim>\<open>{}\<close>: the request is posted, the process
  ends normally, and nothing is written.
\<close>

theorem falsy_answer_dropped:
  "main stub_loads stub_dumps canned_post gateway [Inr ''{}\<newline>''] [ok_reply (JDict [])]
   = (Returned,
      \<lparr>stdout = [], stderr = [],
       posted = [\<lparr>url = ''http://192.168.1.231:8080/mcp'', json_body = JDict [],
                  headers = [(''Content-Type'', ''application/json'')], timeout = 300\<rparr>],
       remote = [], session_closed = 1\<rparr>)
   \<and> outcomes stub_loads canned_post (init gateway) [''{}\<newline>''] [ok_reply (JDict [])]
       = [Answered (JDict [])]"
  by (simp add: main_def run_def run_defs stub_defs Let_def)

subsection \<open>Malformed lines (C3)\<close>

text \<open>
  A non-blank line on which \<^verbatim>\<open>json.loads\<close> raises \<^verbatim>\<open>JSONDecodeError\<close> adds one
  diagnostic to the error channel and changes nothing else: no request is posted and
  nothing is written to standard output. No exception leaves the iteration, and the loop
  goes on with the lines that follow.
\<close>

lemma decode_error_line_skipped:
  assumes "strip line \<noteq> []" and "loads (strip line) = Inl (JSONDecodeError m)"
  shows "loop_body loads dumps post self line w
           = (None, w\<lparr>stderr := stderr w @ [(''JSON decode error: '', Some (JSONDecodeError m))]\<rparr>)
       \<and> for_lines loads dumps post self (Inr line # rest) w
           = for_lines loads dumps post self rest
               (w\<lparr>stderr := stderr w @ [(''JSON decode error: '', Some (JSONDecodeError m))]\<rparr>)"
  using assms by (simp add: loop_body_def inner_except_def Let_def)

text \<open>
  The inner \<^verbatim>\<open>try\<close> has the one handler \<^verbatim>\<open>except json.JSONDecodeError\<close>. When the
  decoder raises anything else the exception leaves the loop with the world as it was:
  no diagnostic, and the lines that follow are not read.
\<close>

lemma other_error_leaves_loop:
  assumes "strip line \<noteq> []" and "loads (strip line) = Inl e" and "\<forall>m. e \<noteq> JSONDecodeError m"
  shows "for_lines loads dumps post self (Inr line # rest) w = (Some e, w)"
  using assms by (cases e) (simp_all add: loop_body_def inner_except_def Let_def)

lemma strip_brackets:
  "strip (replicate (Suc n) (CHR ''['') @ ''\<newline>'') = replicate (Suc n) (CHR ''['')"
proof -
  have a: "\<not> is_space (CHR ''['')" by (simp add: is_space_def)
  have b: "is_space (CHR 0x0A)" by (simp add: is_space_def)
  have "dropWhile is_space (replicate (Suc n) (CHR ''['') @ ''\<newline>'')
          = replicate (Suc n) (CHR ''['') @ ''\<newline>''"
    using a by simp
  moreover have "rev (replicate (Suc n) (CHR ''['') @ ''\<newline>'')
          = CHR 0x0A # CHR ''['' # replicate n (CHR ''['')"
    by (simp add: replicate_append_same)
  ultimately show ?thesis
    using a b by (simp add: strip_def replicate_append_same)
qed

text \<open>
  C3 says that a line that is not valid JSON is reported and skipped, and never ends the
  process. A line of a thousand opening brackets is not valid JSON; on it
  \<^verbatim>\<open>json.loads\<close> raises \<^verbatim>\<open>RecursionError\<close>, which the handler does not take. The
  process ends with the exception uncaught: nothing is written to either stream and the
  valid line that follows is never read, though \<^verbatim>\<open>forward_request\<close>, next to it,
  guards its own decoding with \<^verbatim>\<open>except Exception\<close>.
\<close>

theorem deep_line_ends_process:
  "main nesting_loads stub_dumps canned_post gateway [Inr deep_line, Inr ''[1]\<newline>'']
     [ok_reply (JList [JInt 2])]
   = (Uncaught (RecursionError ''maximum recursion depth exceeded''),
      \<lparr>stdout = [], stderr = [], posted = [], remote = [ok_reply (JList [JInt 2])],
       session_closed = 1\<rparr>)"
proof -
  have s: "strip deep_line = replicate 1000 (CHR ''['')"
    using strip_brackets [of 999] by (simp add: deep_line_def)
  have "for_lines nesting_loads stub_dumps canned_post (init gateway)
          (Inr deep_line # [Inr ''[1]\<newline>'']) (fresh [ok_reply (JList [JInt 2])])
        = (Some (RecursionError ''maximum recursion depth exceeded''),
           fresh [ok_reply (JList [JInt 2])])"
    by (rule other_error_leaves_loop) (simp_all add: s nesting_loads_def)
  then show ?thesis by (simp add: main_def run_def fresh_def)
qed

subsection \<open>Order of the output lines (C4)\<close>

text \<open>
  When every input line is valid and its request succeeds, the loop reaches the end of
  the input and the output lines are the serializations of the answers that
  \<^verbatim>\<open>if response:\<close> lets through, in the order of their input lines. When it lets
  every answer through, there is one output line for each input line.
\<close>

lemma output_order_preserved:
  assumes "outcomes loads post self lines r = cs"
      and "\<forall>c \<in> set cs. \<exists>v. c = Answered v"
  shows "\<exists>w'. for_lines loads dumps post self (map Inr lines) (fresh r) = (None, w')
            \<and> length (answers cs) = length lines
            \<and> written (stdout w') = map (output_line dumps) (filter truthy (answers cs))"
proof -
  have "\<forall>c \<in> set (outcomes loads post self lines (remote (fresh r))). \<exists>v. c = Answered v"
    using assms by (simp add: fresh_def)
  from for_lines_all_answered [OF this, of dumps]
  obtain w' where run: "for_lines loads dumps post self (map Inr lines) (fresh r) = (None, w')" ..
  have "stdout w' = concat (map (emitted dumps) cs)"
    using for_lines_stdout [OF run] assms(1) by (simp add: fresh_def)
  then have w: "written (stdout w') = map (output_line dumps) (filter truthy (answers cs))"
    by (simp add: written_emitted)
  have "count_list cs Blank = 0" "count_list cs Failed = 0" "count_list cs Malformed = 0"
    using assms(2) by (auto simp: count_list_0_iff)
  then have "length (answers cs) = length cs"
    using count_classes [of cs] by simp
  then have "length (answers cs) = length lines"
    using assms(1) length_outcomes [of loads post self lines r] by simp
  with run w show ?thesis by blast
qed

lemma truthy_answers_one_to_one:
  assumes "outcomes loads post self lines r = cs"
      and "\<forall>c \<in> set cs. \<exists>v. c = Answered v"
      and "\<forall>v \<in> set (answers cs). truthy v"
  shows "\<exists>w'. for_lines loads dumps post self (map Inr lines) (fresh r) = (None, w')
            \<and> written (stdout w') = map (output_line dumps) (answers cs)
            \<and> length (written (stdout w')) = length lines"
proof -
  from output_order_preserved [OF assms(1,2), of dumps]
  obtain w' where w: "for_lines loads dumps post self (map Inr lines) (fresh r) = (None, w')"
      "length (answers cs) = length lines"
      "written (stdout w') = map (output_line dumps) (filter truthy (answers cs))"
    by blast
  have "filter truthy (answers cs) = answers cs"
    using assms(3) by (simp add: filter_id_conv)
  with w show ?thesis by simp
qed

text \<open>
  C4 says that N valid lines whose requests all succeed give output lines that correspond
  one to one, in order, to the input lines. Here three valid lines are answered with
  status 200 and the bodies \<^verbatim>\<open>[2]\<close>, \<^verbatim>\<open>{}\<close> and \<^verbatim>\<open>[1]\<close>: the process ends
  normally with two output lines, the second of them the answer to the third line. The
  answer \<^verbatim>\<open>{}\<close> is lost to \<^verbatim>\<open>if response:\<close>, as under C2.
\<close>

theorem falsy_answer_breaks_correspondence:
  "main stub_loads stub_dumps canned_post gateway
     [Inr ''[1]\<newline>'', Inr ''[2]\<newline>'', Inr ''{}\<newline>'']
     [ok_reply (JList [JInt 2]), ok_reply (JDict []), ok_reply (JList [JInt 1])]
   = (Returned,
      \<lparr>stdout = [Write ''[2]\<newline>'', Flush, Write ''[1]\<newline>'', Flush], stderr = [],
       posted = [post_args (init gateway) (JList [JInt 1]),
                 post_args (init gateway) (JList [JInt 2]),
                 post_args (init gateway) (JDict [])],
       remote = [], session_closed = 1\<rparr>)
   \<and> outcomes stub_loads canned_post (init gateway)
       [''[1]\<newline>'', ''[2]\<newline>'', ''{}\<newline>'']
       [ok_reply (JList [JInt 2]), ok_reply (JDict []), ok_reply (JList [JInt 1])]
     = [Answered (JList [JInt 2]), Answered (JDict []), Answered (JList [JInt 1])]"
  by (simp add: main_def run_def run_defs stub_defs Let_def)

subsection \<open>Blank lines and the shape of the request (C8)\<close>

text \<open>
  C8. A blank line leaves the world as it is, so no request is sent and no output line
  is written, and the loop goes on. A non-blank line that parses adds exactly one request
  to those posted: to the base URL followed by \<^verbatim>\<open>/mcp\<close>, with the parsed value as
  JSON body, the header \<^verbatim>\<open>Content-Type: application/json\<close> and a timeout of 300
  seconds.
\<close>

theorem blank_skipped_and_post_shape:
  "(strip line = [] \<longrightarrow>
      loop_body loads dumps post self line w = (None, w)
      \<and> for_lines loads dumps post self (Inr line # rest) w
          = for_lines loads dumps post self rest w)
   \<and> (strip line \<noteq> [] \<and> loads (strip line) = Inr request \<longrightarrow>
      posted (snd (loop_body loads dumps post self line w))
        = posted w @ [\<lparr>url = base_url self @ ''/mcp'', json_body = request,
                        headers = [(''Content-Type'', ''application/json'')],
                        timeout = 300\<rparr>])"
proof -
  have "posted (snd (inner_except e w')) = posted w'" for e and w' :: "'a world"
    by (simp add: inner_except_def split: exn.splits)
  then show ?thesis
    using posted_forward_request [of post self request w]
    by (auto simp: loop_body_def print_flush_def post_args_def Let_def
             split: prod.splits sum.splits)
qed

theorem blank_skipped_and_post_shape_witness:
  "strip '' \<newline>'' = []
   \<and> loop_body stub_loads stub_dumps canned_post (init gateway) '' \<newline>''
         (fresh [ok_reply (JList [JInt 2])])
       = (None, fresh [ok_reply (JList [JInt 2])])
   \<and> strip '' [1]\<newline>'' \<noteq> [] \<and> stub_loads (strip '' [1]\<newline>'') = Inr (JList [JInt 1])
   \<and> posted (snd (loop_body stub_loads stub_dumps canned_post (init gateway) '' [1]\<newline>''
         (fresh [ok_reply (JList [JInt 2])])))
       = [\<lparr>url = ''http://192.168.1.231:8080/mcp'', json_body = JList [JInt 1],
           headers = [(''Content-Type'', ''application/json'')], timeout = 300\<rparr>]"
proof -
  have h1: "strip '' \<newline>'' = []" by (simp add: stub_defs)
  have h2: "strip '' [1]\<newline>'' \<noteq> [] \<and> stub_loads (strip '' [1]\<newline>'') = Inr (JList [JInt 1])"
    by (simp add: stub_defs)
  from h1 h2
    blank_skipped_and_post_shape [where line = "'' \<newline>''" and loads = stub_loads
      and dumps = stub_dumps and post = canned_post and self = "init gateway"
      and w = "fresh [ok_reply (JList [JInt 2])]" and rest = "[]"]
    blank_skipped_and_post_shape [where line = "'' [1]\<newline>''" and loads = stub_loads
      and dumps = stub_dumps and post = canned_post and self = "init gateway"
      and w = "fresh [ok_reply (JList [JInt 2])]" and request = "JList [JInt 1]"]
  show ?thesis by (simp add: init_def rstrip_slash_def gateway_def fresh_def)
qed

subsection \<open>Base URL normalisation (C9)\<close>

text \<open>
  C9. A client built from \<open>u\<close> followed by any number of slashes is the client built from
  \<open>u\<close>, and it posts to \<open>u\<close> stripped of its trailing slashes, followed by
  \<^verbatim>\<open>/mcp\<close>: the stripped URL is \<open>u\<close> less a run of slashes at its end, and does not
  end in a slash itself.
\<close>

theorem base_url_normalised:
  "init (u @ replicate n (CHR ''/'')) = init u
   \<and> posted (snd (forward_request post (init (u @ replicate n (CHR ''/''))) j w))
       = posted w @ [\<lparr>url = rstrip_slash u @ ''/mcp'', json_body = j,
                       headers = [(''Content-Type'', ''application/json'')], timeout = 300\<rparr>]
   \<and> (\<exists>k. u = rstrip_slash u @ replicate k (CHR ''/''))
   \<and> (rstrip_slash u = [] \<or> last (rstrip_slash u) \<noteq> CHR ''/'')"
  using rstrip_slash_decompose [of u] rstrip_slash_no_trailing_slash [of u]
  by (simp add: init_def rstrip_slash_append_slashes posted_forward_request post_args_def)

theorem base_url_normalised_witness:
  "init ''http://192.168.1.231:8080///'' = init ''http://192.168.1.231:8080''
   \<and> posted (snd (forward_request canned_post (init ''http://192.168.1.231:8080///'')
                    (JDict []) (fresh [])))
       = [\<lparr>url = ''http://192.168.1.231:8080/mcp'', json_body = JDict [],
           headers = [(''Content-Type'', ''application/json'')], timeout = 300\<rparr>]"
  using base_url_normalised [of "''http://192.168.1.231:8080''" 3 canned_post "JDict []" "fresh []"]
  by (simp add: init_def rstrip_slash_def fresh_def numeral_3_eq_3)

subsection \<open>A successful status with a body that is no JSON (C10)\<close>

text \<open>
  C10. When the endpoint answers with a 2xx status and \<^verbatim>\<open>response.json()\<close> raises,
  the line is handled as if the post itself had raised that exception (\<open>post2\<close>): a
  \<^verbatim>\<open>Request error\<close> diagnostic goes to the error channel, nothing is written to
  standard output, and the loop goes on with the next line.
\<close>

theorem non_json_body_is_request_error:
  assumes "strip line \<noteq> []" and "loads (strip line) = Inr request"
      and "post (remote w) (post_args self request) = (Inr response, r')"
      and "200 \<le> status_code response" and "status_code response < 300"
      and "json_result response = Inl e" and "is_Exception e"
      and "post2 (remote w) (post_args self request) = (Inl e, r')"
  shows "loop_body loads dumps post self line w
           = (None, w\<lparr>posted := posted w @ [post_args self request], remote := r',
                       stderr := stderr w @ [(''Request error: '', Some e)]\<rparr>)
       \<and> loop_body loads dumps post self line w = loop_body loads dumps post2 self line w
       \<and> for_lines loads dumps post self (Inr line # rest) w
           = for_lines loads dumps post self rest
               (w\<lparr>posted := posted w @ [post_args self request], remote := r',
                  stderr := stderr w @ [(''Request error: '', Some e)]\<rparr>)"
  using assms
  by (simp add: loop_body_def forward_request_def request_failed_def raise_for_status_def Let_def)

theorem non_json_body_is_request_error_witness:
  "for_lines stub_loads stub_dumps canned_post (init gateway) [Inr ''[1]\<newline>'', Inr ''[2]\<newline>'']
     (fresh [Inr \<lparr>status_code = 200, json_result = Inl (JSONDecodeError ''Expecting value'')\<rparr>,
             ok_reply (JList [JInt 1])])
   = (None,
      \<lparr>stdout = [Write ''[1]\<newline>'', Flush],
       stderr = [(''Request error: '', Some (JSONDecodeError ''Expecting value''))],
       posted = [post_args (init gateway) (JList [JInt 1]), post_args (init gateway) (JList [JInt 2])],
       remote = [], session_closed = 0\<rparr>)"
proof -
  let ?e = "JSONDecodeError ''Expecting value''"
  let ?resp = "\<lparr>status_code = 200, json_result = Inl ?e\<rparr>"
  let ?w = "fresh [Inr ?resp, ok_reply (JList [JInt 1])]"
  have h1: "strip ''[1]\<newline>'' \<noteq> []" by (simp add: stub_defs)
  have h2: "stub_loads (strip ''[1]\<newline>'') = Inr (JList [JInt 1])" by (simp add: stub_defs)
  have h3: "canned_post (remote ?w) (post_args (init gateway) (JList [JInt 1]))
              = (Inr ?resp, [ok_reply (JList [JInt 1])])"
    by (simp add: canned_post_def fresh_def)
  have h4: "200 \<le> status_code ?resp" and h5: "status_code ?resp < 300" by simp_all
  have h6: "json_result ?resp = Inl ?e" and h7: "is_Exception ?e" by simp_all
  have h8: "failing_post ?e (remote ?w) (post_args (init gateway) (JList [JInt 1]))
              = (Inl ?e, [ok_reply (JList [JInt 1])])"
    by (simp add: failing_post_def fresh_def)
  from non_json_body_is_request_error [where loads = stub_loads and dumps = stub_dumps
         and post = canned_post and ?post2.0 = "failing_post ?e" and self = "init gateway"
         and rest = "[Inr ''[2]\<newline>'']", OF h1 h2 h3 h4 h5 h6 h7 h8]
  show ?thesis by (simp add: run_defs stub_defs failing_post_def Let_def)
qed

section \<open>Properties of the TCP bridge and of the teardown\<close>

subsection \<open>Each direction on its own\<close>

lemma accepted_Nil [simp]: "accepted [] ls = ls"
  by (cases ls) simp_all

lemma stdio_loop_sent:
  "socket self \<noteq> None \<Longrightarrow>
   sock_sent (snd (stdio_loop self stdin w))
     = sock_sent w @ accepted (send_outcomes w) (lines_read stdin)"
proof (induction stdin arbitrary: w)
  case Nil
  then show ?case by simp
next
  case (Cons x rest)
  show ?case
  proof (cases x)
    case (Inl e)
    then show ?thesis by simp
  next
    case (Inr line)
    show ?thesis
    proof (cases "line = []")
      case True
      with Inr show ?thesis by simp
    next
      case False
      obtain s where s: "socket self = Some s" using Cons.prems by auto
      show ?thesis
      proof (cases "send_outcomes w")
        case Nil
        then have "sendall line w = (None, w\<lparr>sock_sent := sock_sent w @ [line]\<rparr>)"
          by (simp add: sendall_def)
        with Inr False s Nil Cons.IH [OF Cons.prems, of "w\<lparr>sock_sent := sock_sent w @ [line]\<rparr>"]
        show ?thesis by simp
      next
        case (Cons o1 os)
        show ?thesis
        proof (cases o1)
          case None
          with Cons have "sendall line w
              = (None, w\<lparr>sock_sent := sock_sent w @ [line], send_outcomes := os\<rparr>)"
            by (simp add: sendall_def)
          with Inr False s Cons None
            Cons.IH [OF Cons.prems, of "w\<lparr>sock_sent := sock_sent w @ [line], send_outcomes := os\<rparr>"]
          show ?thesis by simp
        next
          case (Some e)
          with Cons have "sendall line w = (Some e, w\<lparr>send_outcomes := os\<rparr>)"
            by (simp add: sendall_def)
          with Inr False s Cons Some show ?thesis by simp
        qed
      qed
    qed
  qed
qed

lemma forward_stdio_to_socket_sent:
  "sock_sent (snd (forward_stdio_to_socket self stdin w)) = sock_sent (snd (stdio_loop self stdin w))"
  by (simp add: forward_stdio_to_socket_def split: prod.splits option.splits)

lemma stream_bytes_after_recv:
  "bs \<noteq> [] \<Longrightarrow>
   stream_bytes (if drop n bs = [] then q else Data (drop n bs) # q) = drop n bs @ stream_bytes q"
  by simp

lemma socket_loop_sout:
  "socket self \<noteq> None \<Longrightarrow>
   \<exists>cs. sout (snd (socket_loop self w)) = sout w @ write_events cs
        \<and> concat cs = stream_bytes (sock_incoming w)
        \<and> (\<forall>c \<in> set cs. c \<noteq> [] \<and> length c \<le> 4096)"
proof (induction self w rule: socket_loop.induct)
  case (1 self w)
  show ?case
  proof (cases "sock_incoming w")
    case Nil
    then have "socket_loop self w = (None, w)"
      using "1.prems" by (simp add: recv_def)
    with Nil show ?thesis by (intro exI [of _ "[]"]) simp
  next
    case (Cons ev q)
    show ?thesis
    proof (cases ev)
      case (RecvRaises e)
      with Cons have "socket_loop self w = (Some e, w\<lparr>sock_incoming := q\<rparr>)"
        using "1.prems" by (simp add: recv_def)
      with Cons RecvRaises show ?thesis by (intro exI [of _ "[]"]) simp
    next
      case (Data bs)
      let ?w' = "w\<lparr>sock_incoming := (if drop 4096 bs = [] then q else Data (drop 4096 bs) # q)\<rparr>"
      from Cons Data have r: "recv 4096 w = (Inr (take 4096 bs), ?w')"
        by (simp add: recv_def)
      show ?thesis
      proof (cases "bs = []")
        case True
        with r have "socket_loop self w = (None, ?w')"
          using "1.prems" by simp
        with Cons Data True show ?thesis by (intro exI [of _ "[]"]) simp
      next
        case False
        then have ne: "take 4096 bs \<noteq> []" by simp
        from r ne "1.prems" have step:
          "socket_loop self w = socket_loop self (write_flush (take 4096 bs) ?w')"
          by (subst socket_loop.simps) simp
        from "1.IH" [OF "1.prems" r [symmetric] refl ne "1.prems"]
        obtain cs where cs:
          "sout (snd (socket_loop self (write_flush (take 4096 bs) ?w')))
             = sout (write_flush (take 4096 bs) ?w') @ write_events cs"
          "concat cs = stream_bytes (sock_incoming (write_flush (take 4096 bs) ?w'))"
          "\<forall>c \<in> set cs. c \<noteq> [] \<and> length c \<le> 4096"
          by blast
        have "concat (take 4096 bs # cs) = stream_bytes (sock_incoming w)"
          using cs(2) Cons Data False by (simp add: write_flush_def)
        moreover have "sout (snd (socket_loop self w)) = sout w @ write_events (take 4096 bs # cs)"
          using step cs(1) by (simp add: write_flush_def)
        moreover have "\<forall>c \<in> set (take 4096 bs # cs). c \<noteq> [] \<and> length c \<le> 4096"
          using cs(3) ne by simp
        ultimately show ?thesis by blast
      qed
    qed
  qed
qed

lemma forward_socket_to_stdio_sout:
  "sout (snd (forward_socket_to_stdio self w)) = sout (snd (socket_loop self w))"
  by (simp add: forward_socket_to_stdio_def split: prod.splits option.splits)

subsection \<open>The byte pipe (C5)\<close>

text \<open>
  C5. With the socket in place, each direction relays bytes as they are and in order.
  The socket is handed the lines read from standard input, one \<^verbatim>\<open>sendall\<close> per line,
  up to the end of the input or the first write that fails. Standard output receives the
  bytes the socket delivers up to a read of zero bytes or a failing read, in writes of at
  most 4096 bytes that are never empty, each followed by a flush.
\<close>

theorem tcp_byte_pipe:
  assumes "socket self \<noteq> None"
  shows "sock_sent (snd (forward_stdio_to_socket self stdin w))
           = sock_sent w @ accepted (send_outcomes w) (lines_read stdin)
       \<and> (\<exists>cs. sout (snd (forward_socket_to_stdio self w)) = sout w @ write_events cs
              \<and> concat cs = stream_bytes (sock_incoming w)
              \<and> (\<forall>c \<in> set cs. c \<noteq> [] \<and> length c \<le> 4096))"
  using stdio_loop_sent [OF assms, of stdin w] socket_loop_sout [OF assms, of w]
  by (simp add: forward_stdio_to_socket_sent forward_socket_to_stdio_sout)

theorem tcp_byte_pipe_witness:
  "sock_sent (snd (forward_stdio_to_socket connected_bridge
       [Inr ''a\<newline>'', Inr ''b\<newline>'', Inr ''c\<newline>'']
       (fresh_net None [None, None, Some (OSError ''Broken pipe'')]
                  [Data ''hello\<newline>'', RecvRaises (OSError ''Connection reset''), Data ''lost''])))
     = [''a\<newline>'', ''b\<newline>'']
   \<and> (\<exists>cs. sout (snd (forward_socket_to_stdio connected_bridge
       (fresh_net None [None, None, Some (OSError ''Broken pipe'')]
                  [Data ''hello\<newline>'', RecvRaises (OSError ''Connection reset''), Data ''lost''])))
          = write_events cs
        \<and> concat cs = ''hello\<newline>'')"
proof -
  have h: "socket connected_bridge \<noteq> None" by (simp add: connected_bridge_def)
  from tcp_byte_pipe [OF h, of "[Inr ''a\<newline>'', Inr ''b\<newline>'', Inr ''c\<newline>'']"
         "fresh_net None [None, None, Some (OSError ''Broken pipe'')]
                    [Data ''hello\<newline>'', RecvRaises (OSError ''Connection reset''), Data ''lost'']"]
  show ?thesis by (auto simp: fresh_net_def)
qed

subsection \<open>How \<^verbatim>\<open>run\<close> ends\<close>

lemma not_Exception_iff: "\<not> is_Exception e \<longleftrightarrow> e = KeyboardInterrupt"
  by (cases e) simp_all

lemma forward_socket_to_stdio_raised:
  "fst (forward_socket_to_stdio self w) = None
   \<or> fst (forward_socket_to_stdio self w) = Some KeyboardInterrupt"
  by (auto simp: forward_socket_to_stdio_def not_Exception_iff
           split: prod.splits option.splits)

lemma stdio_loop_closed:
  "sock_closed (snd (stdio_loop self stdin w)) = sock_closed w"
proof (induction stdin arbitrary: w)
  case Nil
  then show ?case by simp
next
  case (Cons x rest)
  have s: "sock_closed (snd (sendall line w)) = sock_closed w" for line
    by (simp add: sendall_def split: list.splits option.splits)
  show ?case
  proof (cases x)
    case (Inl e)
    then show ?thesis by simp
  next
    case (Inr line)
    obtain r w1 where sa: "sendall line w = (r, w1)" by (cases "sendall line w")
    with s [of line] have "sock_closed w1 = sock_closed w" by simp
    with Inr sa Cons.IH [of w1] show ?thesis
      by (simp split: option.splits)
  qed
qed

lemma forward_stdio_to_socket_closed:
  "sock_closed (snd (forward_stdio_to_socket self stdin w)) = sock_closed w"
proof -
  obtain r w' where l: "stdio_loop self stdin w = (r, w')" by (cases "stdio_loop self stdin w")
  with stdio_loop_closed [of self stdin w] have "sock_closed w' = sock_closed w" by simp
  with l show ?thesis
    by (simp add: forward_stdio_to_socket_def split: option.splits)
qed

lemma recv_closed: "sock_closed (snd (recv n w)) = sock_closed w"
  by (simp add: recv_def split: list.splits recv_event.splits)

lemma socket_loop_closed:
  "sock_closed (snd (socket_loop self w)) = sock_closed w"
proof (induction self w rule: socket_loop.induct)
  case (1 self w)
  obtain x w' where r: "recv 4096 w = (x, w')" by (cases "recv 4096 w")
  with recv_closed [of 4096 w] have c: "sock_closed w' = sock_closed w" by simp
  show ?case
  proof (cases "socket self = None")
    case True
    then show ?thesis by simp
  next
    case False
    show ?thesis
    proof (cases x)
      case (Inl e)
      with r c False show ?thesis by simp
    next
      case (Inr data)
      show ?thesis
      proof (cases "data = []")
        case True
        with Inr r c False show ?thesis by simp
      next
        case ne: False
        from "1.IH" [OF False r [symmetric] Inr ne]
        have "sock_closed (snd (socket_loop self (write_flush data w')))
                = sock_closed (write_flush data w')" .
        moreover from r Inr ne False
        have "socket_loop self w = socket_loop self (write_flush data w')"
          by (subst socket_loop.simps) simp
        ultimately show ?thesis using c by (simp add: write_flush_def)
      qed
    qed
  qed
qed

lemma forward_socket_to_stdio_closed:
  "sock_closed (snd (forward_socket_to_stdio self w)) = sock_closed w"
proof -
  obtain r w' where l: "socket_loop self w = (r, w')" by (cases "socket_loop self w")
  with socket_loop_closed [of self w] have "sock_closed w' = sock_closed w" by simp
  with l show ?thesis
    by (simp add: forward_socket_to_stdio_def split: option.splits)
qed

lemma stdio_ended_take:
  "stdio_ended self stdin sched w \<Longrightarrow>
   stdio_loop self (take sched stdin) w = stdio_loop self stdin w"
proof (induction self stdin sched w rule: stdio_ended.induct)
  case (1 self stdin w)
  then show ?case by simp
next
  case (2 self n w)
  then show ?case by simp
next
  case (3 self e rest n w)
  then show ?case by simp
next
  case (4 self line rest n w)
  then show ?case
    by (auto split: option.splits prod.splits)
qed

lemma run_bridge_connected:
  assumes "connect_outcome w = None"
  shows "fst (run_bridge self stdin sched w) = Returned
       \<and> fst (snd (run_bridge self stdin sched w))
           = (if stdio_ended (self\<lparr>socket := Some ()\<rparr>) stdin sched w then Ended else Blocked)
       \<and> sock_closed (snd (snd (snd (run_bridge self stdin sched w)))) = sock_closed w + 1"
proof -
  let ?self1 = "self\<lparr>socket := Some ()\<rparr>"
  obtain t w2 where t: "forward_stdio_to_socket ?self1 (take sched stdin) w = (t, w2)"
    by (cases "forward_stdio_to_socket ?self1 (take sched stdin) w")
  obtain raised w3 where m: "forward_socket_to_stdio ?self1 w2 = (raised, w3)"
    by (cases "forward_socket_to_stdio ?self1 w2")
  have c2: "sock_closed w2 = sock_closed w"
    using forward_stdio_to_socket_closed [of ?self1 "take sched stdin" w] t by simp
  have c3: "sock_closed w3 = sock_closed w2"
    using forward_socket_to_stdio_closed [of ?self1 w2] m by simp
  have "raised = None \<or> raised = Some KeyboardInterrupt"
    using forward_socket_to_stdio_raised [of ?self1 w2] m by simp
  with assms t m c2 c3 show ?thesis
    by (auto simp: run_bridge_def connect_def Let_def)
qed

lemma run_bridge_refused:
  assumes "connect_outcome w = Some e" and "is_Exception e"
  shows "run_bridge self stdin sched w
           = (SysExit 1, NotStarted, self\<lparr>socket := Some ()\<rparr>,
              w\<lparr>serr := serr w @ [(''Connection failed: '', Some e)]\<rparr>)"
  using assms by (simp add: run_bridge_def connect_def Let_def)

text \<open>
  A refused connection: the diagnostic, \<^verbatim>\<open>sys.exit(1)\<close>, and the rest of the world
  untouched, since no forwarding loop has run. The socket that \<^verbatim>\<open>connect\<close> created
  is not closed on this path.
\<close>

lemma main_bridge_refused:
  assumes "connect_outcome w = Some e" and "is_Exception e"
  shows "main_bridge h p stdin sched w
           = (SysExit 1, (init_bridge h p)\<lparr>socket := Some ()\<rparr>,
              w\<lparr>serr := serr w @ [(''Connection failed: '', Some e)]\<rparr>)
       \<and> exit_status (fst (main_bridge h p stdin sched w)) \<noteq> 0"
  using run_bridge_refused [OF assms, of "init_bridge h p" stdin sched]
  by (simp add: main_bridge_def interpreter_exit_def)

text \<open>
  An established connection: the socket is closed exactly once however the forwarding
  ends, and the exit status is 0 when the daemon thread has come to its end (as it does
  at the end of standard input), 134 when it is still blocked in its read.
\<close>

lemma main_bridge_connected:
  assumes "connect_outcome w = None"
  shows "sock_closed (snd (snd (main_bridge h p stdin sched w))) = sock_closed w + 1
       \<and> exit_status (fst (main_bridge h p stdin sched w))
           = (if stdio_ended ((init_bridge h p)\<lparr>socket := Some ()\<rparr>) stdin sched w
              then 0 else 134)"
proof -
  obtain e t self1 w' where r: "run_bridge (init_bridge h p) stdin sched w = (e, t, self1, w')"
    by (cases "run_bridge (init_bridge h p) stdin sched w")
  with run_bridge_connected [OF assms, of "init_bridge h p" stdin sched]
  show ?thesis by (simp add: main_bridge_def interpreter_exit_def)
qed

lemmas bridge_defs = main_bridge_def run_bridge_def interpreter_exit_def connect_def
  forward_stdio_to_socket_def forward_socket_to_stdio_def recv_def sendall_def write_flush_def
  init_bridge_def fresh_net_def connected_bridge_def

subsection \<open>Connection failure and exit status (C6)\<close>

text \<open>
  C6 says that a refused connection ends the process with a diagnostic and a nonzero
  status, which it does (\<open>main_bridge_refused\<close>), and that a clean shutdown, by the end of
  the input or by an interrupt, ends it with status 0. \<^verbatim>\<open>run\<close> passes over the
  interrupt and closes the socket, but the daemon thread is still blocked in its read of
  standard input, and the interpreter aborts as it shuts down. Here the connection is
  established, standard input is open and silent, and the interrupt arrives while the
  main thread waits for the socket: the exit status is 134.
\<close>

theorem interrupt_with_stdin_open_aborts:
  "main_bridge ''192.168.1.231'' 8080 [] 0 (fresh_net None [] [RecvRaises KeyboardInterrupt])
   = (Aborted, connected_bridge, (fresh_net None [] [])\<lparr>sock_closed := 1\<rparr>)
   \<and> exit_status (fst (main_bridge ''192.168.1.231'' 8080 [] 0
         (fresh_net None [] [RecvRaises KeyboardInterrupt]))) = 134"
  by (simp add: bridge_defs Let_def)

subsection \<open>Teardown (C7)\<close>

text \<open>
  In Mode A the session is closed exactly once on every way out of \<^verbatim>\<open>run\<close>: the end
  of the input, an interrupt, or an exception raised by a read, by the decoder or by the
  post. When the input ends or an interrupt arrives, the exit status is 0.
\<close>

lemma loop_body_session:
  "session_closed (snd (loop_body loads dumps post self line w)) = session_closed w"
  by (simp add: run_defs Let_def
           split: prod.splits sum.splits option.splits exn.splits)

lemma for_lines_session:
  "session_closed (snd (for_lines loads dumps post self stdin w)) = session_closed w"
proof (induction stdin arbitrary: w)
  case Nil
  then show ?case by simp
next
  case (Cons x rest)
  show ?case
  proof (cases x)
    case (Inl e)
    then show ?thesis by simp
  next
    case (Inr line)
    obtain r w1 where b: "loop_body loads dumps post self line w = (r, w1)"
      by (cases "loop_body loads dumps post self line w")
    with loop_body_session [of loads dumps post self line w]
    have "session_closed w1 = session_closed w" by simp
    with Inr b Cons.IH [of w1] show ?thesis by (simp split: option.splits)
  qed
qed

lemma run_session:
  "session_closed (snd (run loads dumps post self stdin w)) = session_closed w + 1"
proof -
  obtain r w1 where l: "for_lines loads dumps post self stdin w = (r, w1)"
    by (cases "for_lines loads dumps post self stdin w")
  with for_lines_session [of loads dumps post self stdin w]
  have "session_closed w1 = session_closed w" by simp
  with l show ?thesis by (simp add: run_def)
qed

lemma main_session: "session_closed (snd (main loads dumps post u stdin r)) = 1"
proof -
  obtain p w1 where l: "run loads dumps post (init u) stdin (fresh r) = (p, w1)"
    by (cases "run loads dumps post (init u) stdin (fresh r)")
  with run_session [of loads dumps post "init u" stdin "fresh r"]
  have "session_closed w1 = 1" by (simp add: fresh_def)
  with l show ?thesis by (simp add: main_def)
qed

lemma main_returns:
  assumes "fst (for_lines loads dumps post (init u) stdin (fresh r)) = None
           \<or> fst (for_lines loads dumps post (init u) stdin (fresh r)) = Some KeyboardInterrupt"
  shows "fst (main loads dumps post u stdin r) = Returned"
proof -
  obtain e w1 where l: "for_lines loads dumps post (init u) stdin (fresh r) = (e, w1)"
    by (cases "for_lines loads dumps post (init u) stdin (fresh r)")
  with assms show ?thesis by (auto simp: main_def run_def)
qed

lemma session_released_once:
  "session_closed (snd (main loads dumps post u stdin r)) = 1
   \<and> (fst (for_lines loads dumps post (init u) stdin (fresh r)) = None
        \<or> fst (for_lines loads dumps post (init u) stdin (fresh r)) = Some KeyboardInterrupt
      \<longrightarrow> exit_status (fst (main loads dumps post u stdin r)) = 0)"
  using main_session [of loads dumps post u stdin r] main_returns [of loads dumps post u stdin r]
  by auto

text \<open>
  C7 says that the connection resource is released exactly once on every exit path, and
  that the process ends with status 0 when the remote socket is closed. In Mode B the
  peer sends \<^verbatim>\<open>hello\<close> and closes while standard input is open and silent: the bytes
  reach standard output and the socket is closed once, but the daemon thread is still
  blocked in its read and the process ends with status 134, as under C6. And when the
  connection is refused, the socket that \<^verbatim>\<open>connect\<close> has created is never closed:
  \<^verbatim>\<open>run\<close> leaves through \<^verbatim>\<open>sys.exit(1)\<close> ahead of the \<^verbatim>\<open>try\<close> statement whose
  \<^verbatim>\<open>finally\<close> clause closes it on the other paths.
\<close>

theorem peer_close_with_stdin_open_aborts:
  "main_bridge ''192.168.1.231'' 8080 [] 0 (fresh_net None [] [Data ''hello\<newline>''])
   = (Aborted, connected_bridge,
      (fresh_net None [] [])\<lparr>sout := [Write ''hello\<newline>'', Flush], sock_closed := 1\<rparr>)
   \<and> exit_status (fst (main_bridge ''192.168.1.231'' 8080 [] 0
         (fresh_net None [] [Data ''hello\<newline>'']))) = 134
   \<and> socket (fst (snd (main_bridge ''192.168.1.231'' 8080 [] 0
         (fresh_net (Some (ConnectionError ''Connection refused'')) [] [])))) = Some ()
   \<and> sock_closed (snd (snd (main_bridge ''192.168.1.231'' 8080 [] 0
         (fresh_net (Some (ConnectionError ''Connection refused'')) [] [])))) = 0"
  by (simp add: bridge_defs Let_def)

end
